theory Spec2Isabelle
  imports
    Complex_Main
    "HOL-Library.Char_ord"
    "HOL-Library.List_Lexorder"
    "HOL-Library.Sublist"
begin

section \<open>The benchmark comparator of tools/analysis/benchmark\_compare.py\<close>

text \<open>
  Conventions of the embedding.
  \<^item> A Python \<open>str\<close> is a \<open>string\<close> holding its UTF-8 bytes. Equality of strings is
    equality of the byte lists, and the order of Python strings (by code point) is the
    lexicographic order of the byte lists, which \<open>Char_ord\<close> and \<open>List_Lexorder\<close> provide.
  \<^item> A Python number (\<open>int\<close> or \<open>float\<close>) is a \<open>real\<close>: arithmetic is exact, the
    rounding of IEEE doubles, infinities and NaN are not modelled.
  \<^item> An exception is a value of \<open>error\<close>; a function that may raise returns
    \<open>error + 'a\<close>, with \<open>Inl\<close> for the exception.
\<close>

datatype error = ValueError | KeyError | TypeError

subsection \<open>Data model\<close>

datatype ChangeType = IMPROVEMENT | REGRESSION | UNCHANGED | NEW | REMOVED

record BenchmarkComparison =
  name :: string
  baseline_time :: "real option"
  current_time :: "real option"
  change_percent :: real
  change_type :: ChangeType
  speedup :: real

text \<open>
  A benchmark record is the dictionary of one observation; the comparator reads its
  duration fields only, which are numbers (\<open>get_time\<close> is annotated to return a float).
  A measurement set is a dictionary from benchmark name to record, kept as the list of
  its items in iteration order; \<open>map_of\<close> is the lookup \<open>d.get(name)\<close>.
\<close>

type_synonym benchmark = "string \<rightharpoonup> real"

type_synonym benchmarks = "(string \<times> benchmark) list"

subsection \<open>Time extraction\<close>

definition get_time :: "benchmark \<Rightarrow> error + real" where
  "get_time benchmark =
     (case benchmark ''cpu_time'' of
        Some t \<Rightarrow> Inr t
      | None \<Rightarrow>
          (case benchmark ''real_time'' of
             Some t \<Rightarrow> Inr t
           | None \<Rightarrow> Inl ValueError))"

subsection \<open>Comparison\<close>

text \<open>
  \<open>compare_name\<close> is the body of the loop of \<open>compare_benchmarks\<close> for one name: it
  gives the comparison that the iteration appends, or the exception it raises. A name
  found in neither dictionary cannot come out of the union of the keys; there the
  source would test \<open>'cpu_time' in None\<close>, a TypeError.
\<close>

definition compare_name :: "benchmarks \<Rightarrow> benchmarks \<Rightarrow> real \<Rightarrow> string \<Rightarrow> error + BenchmarkComparison" where
  "compare_name baseline current threshold nm =
     (case map_of baseline nm of
        None \<Rightarrow>
          (case map_of current nm of
             None \<Rightarrow> Inl TypeError
           | Some current_bench \<Rightarrow>
               (case get_time current_bench of
                  Inl e \<Rightarrow> Inl e
                | Inr ct \<Rightarrow>
                    Inr \<lparr>name = nm, baseline_time = None, current_time = Some ct,
                         change_percent = 0, change_type = NEW, speedup = 1\<rparr>))
      | Some baseline_bench \<Rightarrow>
          (case map_of current nm of
             None \<Rightarrow>
               (case get_time baseline_bench of
                  Inl e \<Rightarrow> Inl e
                | Inr bt \<Rightarrow>
                    Inr \<lparr>name = nm, baseline_time = Some bt, current_time = None,
                         change_percent = 0, change_type = REMOVED, speedup = 1\<rparr>)
           | Some current_bench \<Rightarrow>
               (case get_time baseline_bench of
                  Inl e \<Rightarrow> Inl e
                | Inr bt \<Rightarrow>
                    (case get_time current_bench of
                       Inl e \<Rightarrow> Inl e
                     | Inr ct \<Rightarrow>
                         (let cp = (if bt > 0 then (ct - bt) / bt else 0);
                              sp = (if bt > 0 then (if ct > 0 then bt / ct else 0) else 1);
                              ty = (if cp > threshold then REGRESSION
                                    else if cp < - threshold then IMPROVEMENT
                                    else UNCHANGED)
                          in Inr \<lparr>name = nm, baseline_time = Some bt, current_time = Some ct,
                                  change_percent = cp, change_type = ty, speedup = sp\<rparr>)))))"

text \<open>
  The loop over the sorted names: \<open>comparisons\<close> is the list built so far, an exception
  ends the loop and nothing is returned.
\<close>

fun compare_loop :: "benchmarks \<Rightarrow> benchmarks \<Rightarrow> real \<Rightarrow> string list \<Rightarrow>
    BenchmarkComparison list \<Rightarrow> error + BenchmarkComparison list" where
  "compare_loop baseline current threshold [] comparisons = Inr comparisons"
| "compare_loop baseline current threshold (nm # names) comparisons =
     (case compare_name baseline current threshold nm of
        Inl e \<Rightarrow> Inl e
      | Inr c \<Rightarrow> compare_loop baseline current threshold names (comparisons @ [c]))"

definition all_names :: "benchmarks \<Rightarrow> benchmarks \<Rightarrow> string set" where
  "all_names baseline current = set (map fst baseline) \<union> set (map fst current)"

definition compare_benchmarks :: "benchmarks \<Rightarrow> benchmarks \<Rightarrow> real \<Rightarrow> error + BenchmarkComparison list" where
  "compare_benchmarks baseline current threshold =
     compare_loop baseline current threshold
       (sorted_list_of_set (all_names baseline current)) []"

subsection \<open>Regression gate\<close>

definition check_regression :: "BenchmarkComparison list \<Rightarrow> real \<Rightarrow> bool \<times> BenchmarkComparison list" where
  "check_regression comparisons threshold =
     (let regressions = filter (\<lambda>c. change_type c = REGRESSION) comparisons
      in (length regressions > 0, regressions))"


subsection \<open>Loading\<close>

text \<open>
  A parsed JSON document is a Python value of any shape, and the loader does not look at
  more than it needs, so it is modelled on all of them. The keys of a dictionary that
  \<open>json.load\<close> returns are strings; the dictionary that the loader builds is keyed by
  whatever the \<open>name\<close> fields hold.
\<close>

datatype pyval =
    PNone
  | PBool bool
  | PNum real
  | PStr string
  | PList "pyval list"
  | PDict "(pyval \<times> pyval) list"

text \<open>\<open>is_substring xs ys\<close>: the string \<open>xs\<close> occurs in \<open>ys\<close>, Python's \<open>xs in ys\<close> on strings.\<close>

fun is_prefix :: "string \<Rightarrow> string \<Rightarrow> bool" where
  "is_prefix [] ys = True"
| "is_prefix (x # xs) [] = False"
| "is_prefix (x # xs) (y # ys) = (x = y \<and> is_prefix xs ys)"

fun is_substring :: "string \<Rightarrow> string \<Rightarrow> bool" where
  "is_substring xs [] = (xs = [])"
| "is_substring xs (y # ys) = (is_prefix xs (y # ys) \<or> is_substring xs ys)"

text \<open>
  \<open>py_contains k v\<close> is \<open>k in v\<close> for a string \<open>k\<close>: a key of a dictionary, an element
  of a list, a substring of a string; the other values are not containers.
\<close>

fun py_contains :: "string \<Rightarrow> pyval \<Rightarrow> error + bool" where
  "py_contains k (PDict d) = Inr (PStr k \<in> set (map fst d))"
| "py_contains k (PList xs) = Inr (PStr k \<in> set xs)"
| "py_contains k (PStr s) = Inr (is_substring k s)"
| "py_contains k PNone = Inl TypeError"
| "py_contains k (PBool b) = Inl TypeError"
| "py_contains k (PNum x) = Inl TypeError"

text \<open>
  \<open>py_getitem v k\<close> is \<open>v[k]\<close> for a string \<open>k\<close>: the value of a dictionary at a key
  it has; lists and strings take integer indices only and the rest has no items.
\<close>

fun py_getitem :: "pyval \<Rightarrow> string \<Rightarrow> error + pyval" where
  "py_getitem (PDict d) k =
     (case map_of d (PStr k) of None \<Rightarrow> Inl KeyError | Some v \<Rightarrow> Inr v)"
| "py_getitem v k = Inl TypeError"

text \<open>
  \<open>py_iter v\<close> are the values that \<open>for b in v\<close> visits: the elements of a list, the
  keys of a dictionary, the characters of a string.
\<close>

fun py_iter :: "pyval \<Rightarrow> error + pyval list" where
  "py_iter (PList xs) = Inr xs"
| "py_iter (PDict d) = Inr (map fst d)"
| "py_iter (PStr s) = Inr (map (\<lambda>c. PStr [c]) s)"
| "py_iter v = Inl TypeError"

text \<open>
  The keys of a dictionary are hashable (lists and dictionaries are not) and are compared
  with \<open>==\<close>, for which \<open>True\<close> is \<open>1\<close> and \<open>False\<close> is \<open>0\<close>. \<open>dict_set d k v\<close> is
  \<open>d[k] = v\<close>: a key already there keeps its place and takes the new value.
\<close>

fun hashable :: "pyval \<Rightarrow> bool" where
  "hashable (PList xs) = False"
| "hashable (PDict d) = False"
| "hashable v = True"

fun key_num :: "pyval \<Rightarrow> real option" where
  "key_num (PBool b) = Some (if b then 1 else 0)"
| "key_num (PNum x) = Some x"
| "key_num v = None"

definition key_eq :: "pyval \<Rightarrow> pyval \<Rightarrow> bool" where
  "key_eq a b =
     (case (key_num a, key_num b) of
        (Some x, Some y) \<Rightarrow> x = y
      | (None, None) \<Rightarrow> a = b
      | _ \<Rightarrow> False)"

fun dict_set :: "(pyval \<times> pyval) list \<Rightarrow> pyval \<Rightarrow> pyval \<Rightarrow> (pyval \<times> pyval) list" where
  "dict_set [] k v = [(k, v)]"
| "dict_set ((k', v') # d) k v =
     (if key_eq k' k then (k', v) # d else (k', v') # dict_set d k v)"

text \<open>
  \<open>by_name bs d\<close> is the dictionary comprehension \<open>{b['name']: b for b in bs}\<close>, with
  \<open>d\<close> the dictionary built so far.
\<close>

fun by_name :: "pyval list \<Rightarrow> (pyval \<times> pyval) list \<Rightarrow> error + (pyval \<times> pyval) list" where
  "by_name [] d = Inr d"
| "by_name (b # bs) d =
     (case py_getitem b ''name'' of
        Inl e \<Rightarrow> Inl e
      | Inr k \<Rightarrow> if hashable k then by_name bs (dict_set d k b) else Inl TypeError)"

text \<open>
  \<open>load_benchmark_json\<close> from the value \<open>data\<close> that \<open>json.load\<close> returned; opening and
  parsing the file are outside the model.
\<close>

definition load_benchmark_json :: "pyval \<Rightarrow> error + pyval" where
  "load_benchmark_json data =
     (case py_contains ''benchmarks'' data of
        Inl e \<Rightarrow> Inl e
      | Inr True \<Rightarrow>
          (case py_getitem data ''benchmarks'' of
             Inl e \<Rightarrow> Inl e
           | Inr benchmarks \<Rightarrow>
               (case py_iter benchmarks of
                  Inl e \<Rightarrow> Inl e
                | Inr bs \<Rightarrow>
                    (case by_name bs [] of
                       Inl e \<Rightarrow> Inl e
                     | Inr d \<Rightarrow> Inr (PDict d))))
      | Inr False \<Rightarrow> Inr data)"

subsection \<open>Formatting numbers\<close>

text \<open>
  \<open>str_nat\<close> is Python's decimal rendering of a non-negative integer, as an f-string
  gives for \<open>{len(xs)}\<close>.
\<close>

fun str_nat :: "nat \<Rightarrow> string" where
  "str_nat n =
     (if n < 10 then [''0123456789'' ! n]
      else str_nat (n div 10) @ [''0123456789'' ! (n mod 10)])"

declare str_nat.simps [simp del]

text \<open>
  \<open>fmt_fixed d x\<close> is the f-string rendering \<open>{x:.df}\<close>: the sign of a negative
  value, the integer part, a point and exactly \<open>d\<close> decimals. Python rounds the exact
  value of the double to the nearest multiple of \<open>10\<^sup>-\<^sup>d\<close>, a tie to the even
  neighbour; the model does the same on the real number.
\<close>

definition round_half_even :: "real \<Rightarrow> nat" where
  "round_half_even y =
     (let f = nat \<lfloor>y\<rfloor>; r = y - of_int \<lfloor>y\<rfloor>
      in if r < 1 / 2 then f
         else if r > 1 / 2 then f + 1
         else if even f then f else f + 1)"

definition fmt_fixed :: "nat \<Rightarrow> real \<Rightarrow> string" where
  "fmt_fixed d x =
     (let n = round_half_even (\<bar>x\<bar> * 10 ^ d);
          frac = str_nat (n mod 10 ^ d)
      in (if x < 0 then ''-'' else [])
         @ str_nat (n div 10 ^ d) @ ''.''
         @ replicate (d - length frac) (CHR ''0'') @ frac)"

subsection \<open>Formatting a duration\<close>

text \<open>
  The unit of the second branch is the literal of the source, byte for byte: the two
  code points U+00AC and U+00B5 followed by \<open>s\<close>.
\<close>

definition format_time :: "real \<Rightarrow> string" where
  "format_time ns =
     (if ns < 1000 then fmt_fixed 2 ns @ '' ns''
      else if ns < 1000000 then
        fmt_fixed 2 (ns / 1000) @ '' '' @ [CHR 0xC2, CHR 0xAC, CHR 0xC2, CHR 0xB5] @ ''s''
      else if ns < 1000000000 then fmt_fixed 2 (ns / 1000000) @ '' ms''
      else fmt_fixed 2 (ns / 1000000000) @ '' s'')"

subsection \<open>The markdown report\<close>

text \<open>
  \<open>time_cell t\<close> is the expression \<open>format_time(t) if t else "N/A"\<close> that the report
  evaluates for \<open>c.baseline_time\<close> and \<open>c.current_time\<close> in each of its three tables:
  \<open>None\<close> is false, and so is a float equal to zero.
\<close>

definition time_cell :: "real option \<Rightarrow> string" where
  "time_cell t =
     (case t of
        None \<Rightarrow> ''N/A''
      | Some v \<Rightarrow> if v \<noteq> 0 then format_time v else ''N/A'')"

text \<open>The line appended for \<open>c\<close> by the loop of the regressions table.\<close>

definition regression_row :: "BenchmarkComparison \<Rightarrow> string" where
  "regression_row c =
     (let baseline_str = time_cell (baseline_time c);
          current_str = time_cell (current_time c)
      in ''| '' @ name c @ '' | '' @ baseline_str @ '' | '' @ current_str @ '' | ''
         @ ''+'' @ fmt_fixed 1 (change_percent c * 100) @ ''% | ''
         @ fmt_fixed 2 (speedup c) @ ''x |'')"

text \<open>The line appended for \<open>c\<close> by the loop of the improvements table.\<close>

definition improvement_row :: "BenchmarkComparison \<Rightarrow> string" where
  "improvement_row c =
     (let baseline_str = time_cell (baseline_time c);
          current_str = time_cell (current_time c)
      in ''| '' @ name c @ '' | '' @ baseline_str @ '' | '' @ current_str @ '' | ''
         @ fmt_fixed 1 (change_percent c * 100) @ ''% | ''
         @ fmt_fixed 2 (speedup c) @ ''x |'')"

fun status_emoji :: "ChangeType \<Rightarrow> string" where
  "status_emoji IMPROVEMENT = [CHR 0xE2, CHR 0x80, CHR 0x9A, CHR 0xC3, CHR 0xBA, CHR 0xC3, CHR 0x96]"
| "status_emoji REGRESSION = [CHR 0xE2, CHR 0x80, CHR 0x9A, CHR 0xC3, CHR 0xB9, CHR 0xC3, CHR 0xA5]"
| "status_emoji UNCHANGED = [CHR 0xE2, CHR 0x80, CHR 0x9A, CHR 0xC3, CHR 0xBB, CHR 0xC3, CHR 0xB1]"
| "status_emoji NEW =
     [CHR 0xEF, CHR 0xA3, CHR 0xBF, CHR 0xC3, CHR 0xBC, CHR 0xC3, CHR 0x9C, CHR 0xC3, CHR 0xAF]"
| "status_emoji REMOVED =
     [CHR 0xEF, CHR 0xA3, CHR 0xBF, CHR 0xC3, CHR 0xBC, CHR 0xC3, CHR 0xB3, CHR 0xC3, CHR 0xAB,
      CHR 0xC3, CHR 0x94, CHR 0xE2, CHR 0x88, CHR 0x8F, CHR 0xC3, CHR 0xA8]"

text \<open>The line appended for \<open>c\<close> by the loop of the table of all results.\<close>

definition result_row :: "BenchmarkComparison \<Rightarrow> string" where
  "result_row c =
     (let baseline_str = time_cell (baseline_time c);
          current_str = time_cell (current_time c);
          change_str =
            (if change_type c = NEW \<or> change_type c = REMOVED then ''N/A''
             else (if change_percent c > 0 then ''+'' else [])
                  @ fmt_fixed 1 (change_percent c * 100) @ ''%'')
      in ''| '' @ name c @ '' | '' @ baseline_str @ '' | '' @ current_str @ '' | ''
         @ change_str @ '' | '' @ status_emoji (change_type c) @ '' |'')"

text \<open>\<open>report_lines\<close> is the list \<open>lines\<close> at the end of \<open>generate_markdown_report\<close>.\<close>

definition report_lines :: "BenchmarkComparison list \<Rightarrow> string \<Rightarrow> string \<Rightarrow> string list" where
  "report_lines comparisons baseline_file current_file =
     (let improvements = filter (\<lambda>c. change_type c = IMPROVEMENT) comparisons;
          regressions = filter (\<lambda>c. change_type c = REGRESSION) comparisons;
          unchanged = filter (\<lambda>c. change_type c = UNCHANGED) comparisons;
          new_benchmarks = filter (\<lambda>c. change_type c = NEW) comparisons;
          removed = filter (\<lambda>c. change_type c = REMOVED) comparisons
      in [''# Benchmark Comparison Report'',
          [],
          ''- **Baseline**: '' @ [CHR 0x60] @ baseline_file @ [CHR 0x60],
          ''- **Current**: '' @ [CHR 0x60] @ current_file @ [CHR 0x60],
          [],
          ''## Summary'',
          []]
         @ [''- '' @ status_emoji IMPROVEMENT @ '' Improvements: '' @ str_nat (length improvements),
            ''- '' @ status_emoji REGRESSION @ '' Regressions: '' @ str_nat (length regressions),
            ''- '' @ status_emoji UNCHANGED @ '' Unchanged: '' @ str_nat (length unchanged),
            ''- '' @ status_emoji NEW @ '' New: '' @ str_nat (length new_benchmarks),
            ''- '' @ status_emoji REMOVED @ '' Removed: '' @ str_nat (length removed),
            []]
         @ (if regressions \<noteq> [] then
              [''## '' @ status_emoji REGRESSION @ '' Regressions'',
               [],
               ''| Benchmark | Baseline | Current | Change | Speedup |'',
               ''|-----------|----------|---------|--------|---------|'']
              @ map regression_row regressions @ [[]]
            else [])
         @ (if improvements \<noteq> [] then
              [''## '' @ status_emoji IMPROVEMENT @ '' Improvements'',
               [],
               ''| Benchmark | Baseline | Current | Change | Speedup |'',
               ''|-----------|----------|---------|--------|---------|'']
              @ map improvement_row improvements @ [[]]
            else [])
         @ [''## All Results'',
            [],
            ''| Benchmark | Baseline | Current | Change | Status |'',
            ''|-----------|----------|---------|--------|--------|'']
         @ map result_row comparisons)"

text \<open>\<open>join sep xs\<close> is \<open>sep.join(xs)\<close>.\<close>

fun join :: "string \<Rightarrow> string list \<Rightarrow> string" where
  "join sep [] = []"
| "join sep [x] = x"
| "join sep (x # y # ys) = x @ sep @ join sep (y # ys)"

definition generate_markdown_report :: "BenchmarkComparison list \<Rightarrow> string \<Rightarrow> string \<Rightarrow> string" where
  "generate_markdown_report comparisons baseline_file current_file =
     join [CHR 0x0A] (report_lines comparisons baseline_file current_file)"


section \<open>Properties of the comparator\<close>

subsection \<open>The names the loop visits\<close>

lemma sorted_names_eq:
  "sorted_list_of_set (all_names baseline current) =
     sort (remdups (map fst baseline @ map fst current))"
  unfolding all_names_def by (metis set_append sorted_list_of_set_sort_remdups)

lemma finite_all_names: "finite (all_names baseline current)"
  by (simp add: all_names_def)

lemma all_names_dom:
  "all_names baseline current = dom (map_of baseline) \<union> dom (map_of current)"
  by (simp add: all_names_def dom_map_of_conv_image_fst)

subsection \<open>One iteration\<close>

lemma get_time_Inl: "get_time r = Inl e \<Longrightarrow> e = ValueError"
  by (auto simp: get_time_def split: option.splits)

lemma get_time_missing:
  "r ''cpu_time'' = None \<Longrightarrow> r ''real_time'' = None \<Longrightarrow> get_time r = Inl ValueError"
  by (simp add: get_time_def)

lemma get_time_present:
  "r ''cpu_time'' \<noteq> None \<or> r ''real_time'' \<noteq> None \<Longrightarrow> \<exists>t. get_time r = Inr t"
  by (auto simp: get_time_def split: option.splits)

lemma compare_name_new:
  assumes "map_of b n = None" and "map_of c n = Some cb"
  shows "compare_name b c t n =
     (case get_time cb of
        Inl e \<Rightarrow> Inl e
      | Inr ct \<Rightarrow> Inr \<lparr>name = n, baseline_time = None, current_time = Some ct,
                       change_percent = 0, change_type = NEW, speedup = 1\<rparr>)"
  using assms by (simp add: compare_name_def)

lemma compare_name_removed:
  assumes "map_of b n = Some bb" and "map_of c n = None"
  shows "compare_name b c t n =
     (case get_time bb of
        Inl e \<Rightarrow> Inl e
      | Inr bt \<Rightarrow> Inr \<lparr>name = n, baseline_time = Some bt, current_time = None,
                       change_percent = 0, change_type = REMOVED, speedup = 1\<rparr>)"
  using assms by (simp add: compare_name_def)

lemma compare_name_both:
  assumes "map_of b n = Some bb" and "map_of c n = Some cb"
    and "get_time bb = Inr bt" and "get_time cb = Inr ct"
  shows "compare_name b c t n =
     Inr \<lparr>name = n, baseline_time = Some bt, current_time = Some ct,
          change_percent = (if bt > 0 then (ct - bt) / bt else 0),
          change_type =
            (if (if bt > 0 then (ct - bt) / bt else 0) > t then REGRESSION
             else if (if bt > 0 then (ct - bt) / bt else 0) < - t then IMPROVEMENT
             else UNCHANGED),
          speedup = (if bt > 0 then (if ct > 0 then bt / ct else 0) else 1)\<rparr>"
  using assms by (simp add: compare_name_def Let_def)

lemma compare_name_both_Inl:
  assumes "map_of b n = Some bb" and "map_of c n = Some cb"
    and "compare_name b c t n = Inl e"
  shows "get_time bb = Inl e \<or> get_time cb = Inl e"
  using assms by (simp add: compare_name_def Let_def split: sum.splits)

text \<open>The three shapes of a comparison that an iteration appends.\<close>

lemma compare_name_Inr_cases:
  assumes "compare_name b c t n = Inr x"
  obtains
    (new) ct where "baseline_time x = None" and "current_time x = Some ct"
      and "change_percent x = 0" and "change_type x = NEW" and "speedup x = 1"
  | (removed) bt where "baseline_time x = Some bt" and "current_time x = None"
      and "change_percent x = 0" and "change_type x = REMOVED" and "speedup x = 1"
  | (both) bt ct where "baseline_time x = Some bt" and "current_time x = Some ct"
      and "change_percent x = (if bt > 0 then (ct - bt) / bt else 0)"
      and "change_type x =
            (if change_percent x > t then REGRESSION
             else if change_percent x < - t then IMPROVEMENT
             else UNCHANGED)"
      and "speedup x = (if bt > 0 then (if ct > 0 then bt / ct else 0) else 1)"
proof (cases "map_of b n")
  case None
  show ?thesis
  proof (cases "map_of c n")
    case cn: None
    with None assms show ?thesis by (simp add: compare_name_def)
  next
    case (Some cb)
    from assms obtain ct where "get_time cb = Inr ct"
      and "x = \<lparr>name = n, baseline_time = None, current_time = Some ct,
                 change_percent = 0, change_type = NEW, speedup = 1\<rparr>"
      by (auto simp: compare_name_new [OF None Some] split: sum.splits)
    then show ?thesis by (intro new [of ct]) simp_all
  qed
next
  case (Some bb)
  show ?thesis
  proof (cases "map_of c n")
    case None
    from assms obtain bt where "get_time bb = Inr bt"
      and "x = \<lparr>name = n, baseline_time = Some bt, current_time = None,
                 change_percent = 0, change_type = REMOVED, speedup = 1\<rparr>"
      by (auto simp: compare_name_removed [OF Some None] split: sum.splits)
    then show ?thesis by (intro removed [of bt]) simp_all
  next
    case cs: (Some cb)
    from assms Some cs obtain bt where bt: "get_time bb = Inr bt"
      by (cases "get_time bb") (simp_all add: compare_name_def)
    from assms Some cs bt obtain ct where ct: "get_time cb = Inr ct"
      by (cases "get_time cb") (simp_all add: compare_name_def)
    from assms have x: "x = \<lparr>name = n, baseline_time = Some bt, current_time = Some ct,
          change_percent = (if bt > 0 then (ct - bt) / bt else 0),
          change_type =
            (if (if bt > 0 then (ct - bt) / bt else 0) > t then REGRESSION
             else if (if bt > 0 then (ct - bt) / bt else 0) < - t then IMPROVEMENT
             else UNCHANGED),
          speedup = (if bt > 0 then (if ct > 0 then bt / ct else 0) else 1)\<rparr>"
      by (simp add: compare_name_both [OF Some cs bt ct])
    show ?thesis
      by (rule both [of bt ct]) (simp_all add: x)
  qed
qed

lemma compare_name_name: "compare_name b c t n = Inr y \<Longrightarrow> name y = n"
  by (auto simp: compare_name_def Let_def split: option.splits sum.splits)

lemma compare_name_Inl:
  assumes "compare_name b c t n = Inl e" and "n \<in> all_names b c"
  shows "e = ValueError"
proof (cases "map_of b n")
  case None
  with assms(2) obtain cb where cb: "map_of c n = Some cb"
    by (auto simp: all_names_dom)
  with None assms(1) have "get_time cb = Inl e"
    by (simp add: compare_name_def split: sum.splits)
  then show ?thesis by (rule get_time_Inl)
next
  case (Some bb)
  show ?thesis
  proof (cases "map_of c n")
    case None
    with Some assms(1) have "get_time bb = Inl e"
      by (simp add: compare_name_def split: sum.splits)
    then show ?thesis by (rule get_time_Inl)
  next
    case cb: (Some cb)
    from compare_name_both_Inl [OF Some cb assms(1)] show ?thesis
      by (auto dest: get_time_Inl)
  qed
qed

lemma compare_name_raises:
  assumes "map_of b n = Some r \<or> map_of c n = Some r"
    and "r ''cpu_time'' = None" and "r ''real_time'' = None"
  shows "compare_name b c t n = Inl ValueError"
proof -
  have r: "get_time r = Inl ValueError"
    using assms(2,3) by (rule get_time_missing)
  show ?thesis
  proof (cases "map_of b n")
    case None
    with assms(1) have "map_of c n = Some r" by simp
    with None r show ?thesis by (simp add: compare_name_new)
  next
    case (Some bb)
    show ?thesis
    proof (cases "map_of c n")
      case None
      with assms(1) Some have "bb = r" by simp
      with Some None r show ?thesis by (simp add: compare_name_removed)
    next
      case cb: (Some cb)
      from assms(1) Some cb have "bb = r \<or> cb = r" by auto
      with r have "get_time bb = Inl ValueError \<or> get_time cb = Inl ValueError" by auto
      moreover have "\<And>e. get_time bb = Inl e \<Longrightarrow> e = ValueError"
        by (rule get_time_Inl)
      ultimately show ?thesis
        using Some cb by (auto simp: compare_name_def Let_def split: sum.splits)
    qed
  qed
qed

lemma compare_name_returns:
  assumes "n \<in> all_names b c"
    and "\<forall>r. map_of b n = Some r \<or> map_of c n = Some r \<longrightarrow>
           r ''cpu_time'' \<noteq> None \<or> r ''real_time'' \<noteq> None"
  shows "\<exists>y. compare_name b c t n = Inr y"
proof (rule ccontr)
  assume "\<not> (\<exists>y. compare_name b c t n = Inr y)"
  then obtain e where e: "compare_name b c t n = Inl e"
    by (cases "compare_name b c t n") auto
  have ok: "\<exists>t. get_time r = Inr t" if "map_of b n = Some r \<or> map_of c n = Some r" for r
    using assms(2) that by (intro get_time_present) blast
  show False
  proof (cases "map_of b n")
    case None
    with assms(1) obtain cb where cb: "map_of c n = Some cb"
      by (auto simp: all_names_dom)
    with ok [of cb] None e show False
      by (auto simp: compare_name_new)
  next
    case (Some bb)
    show False
    proof (cases "map_of c n")
      case None
      with ok [of bb] Some e show False
        by (auto simp: compare_name_removed)
    next
      case cb: (Some cb)
      from compare_name_both_Inl [OF Some cb e] ok [of bb] ok [of cb] Some cb
      show False by auto
    qed
  qed
qed

lemma compare_name_cong:
  assumes "map_of b' = map_of b" and "map_of c' = map_of c"
  shows "compare_name b' c' t n = compare_name b c t n"
  unfolding compare_name_def assms by (rule refl)

subsection \<open>The loop\<close>

lemma compare_loop_Inr:
  "compare_loop b c t ns acc = Inr r \<longleftrightarrow>
     (\<exists>ys. r = acc @ ys \<and> list_all2 (\<lambda>n y. compare_name b c t n = Inr y) ns ys)"
proof (induction ns arbitrary: acc)
  case Nil
  then show ?case by auto
next
  case (Cons n ns)
  show ?case
  proof (cases "compare_name b c t n")
    case (Inl e)
    then show ?thesis by (simp add: list_all2_Cons1)
  next
    case (Inr y)
    have "compare_loop b c t (n # ns) acc = Inr r \<longleftrightarrow>
          (\<exists>ys. r = (acc @ [y]) @ ys \<and>
             list_all2 (\<lambda>n y. compare_name b c t n = Inr y) ns ys)"
      using Inr by (simp add: Cons.IH)
    also have "\<dots> \<longleftrightarrow>
          (\<exists>zs. r = acc @ zs \<and>
             list_all2 (\<lambda>n y. compare_name b c t n = Inr y) (n # ns) zs)"
      using Inr by (auto simp: list_all2_Cons1)
    finally show ?thesis .
  qed
qed

lemma compare_loop_Inl:
  assumes "n \<in> set ns" and "compare_name b c t n = Inl e"
    and "\<forall>m\<in>set ns. \<forall>e'. compare_name b c t m = Inl e' \<longrightarrow> e' = e"
  shows "compare_loop b c t ns acc = Inl e"
  using assms
proof (induction ns arbitrary: acc)
  case Nil
  then show ?case by simp
next
  case (Cons m ns)
  show ?case
  proof (cases "compare_name b c t m")
    case (Inl e')
    with Cons.prems(3) have "e' = e" by simp
    with Inl show ?thesis by simp
  next
    case (Inr y)
    with Cons.prems(1,2) have mem: "n \<in> set ns" by auto
    from Cons.prems(3)
    have rest: "\<forall>m\<in>set ns. \<forall>e'. compare_name b c t m = Inl e' \<longrightarrow> e' = e"
      by simp
    have "compare_loop b c t ns (acc @ [y]) = Inl e"
      by (rule Cons.IH [OF mem Cons.prems(2) rest])
    with Inr show ?thesis by simp
  qed
qed

lemma compare_loop_returns:
  assumes "\<forall>n\<in>set ns. \<exists>y. compare_name b c t n = Inr y"
  shows "\<exists>r. compare_loop b c t ns acc = Inr r"
  using assms
proof (induction ns arbitrary: acc)
  case Nil
  then show ?case by simp
next
  case (Cons n ns)
  then obtain y where y: "compare_name b c t n = Inr y" by auto
  from Cons.prems have "\<forall>n\<in>set ns. \<exists>y. compare_name b c t n = Inr y" by simp
  then have "\<exists>r. compare_loop b c t ns (acc @ [y]) = Inr r" by (rule Cons.IH)
  with y show ?case by simp
qed

lemma compare_loop_cong:
  assumes "\<And>n. compare_name b' c' t n = compare_name b c t n"
  shows "compare_loop b' c' t ns acc = compare_loop b c t ns acc"
  by (induction ns arbitrary: acc) (simp_all add: assms split: sum.splits)

subsection \<open>The whole comparison\<close>

lemma compare_benchmarks_Inr:
  "compare_benchmarks b c t = Inr cs \<longleftrightarrow>
     list_all2 (\<lambda>n y. compare_name b c t n = Inr y) (sorted_list_of_set (all_names b c)) cs"
  by (simp add: compare_benchmarks_def compare_loop_Inr)

lemma compare_benchmarks_member:
  assumes "compare_benchmarks b c t = Inr cs" and "x \<in> set cs"
  shows "\<exists>n\<in>all_names b c. compare_name b c t n = Inr x"
proof -
  let ?ns = "sorted_list_of_set (all_names b c)"
  from assms(1) have la: "list_all2 (\<lambda>n y. compare_name b c t n = Inr y) ?ns cs"
    by (simp add: compare_benchmarks_Inr)
  from assms(2) obtain i where i: "i < length cs" "cs ! i = x"
    by (auto simp: in_set_conv_nth)
  from la i have "compare_name b c t (?ns ! i) = Inr x"
    by (auto simp: list_all2_conv_all_nth)
  moreover from la i have "i < length ?ns"
    by (auto dest: list_all2_lengthD)
  then have "?ns ! i \<in> set ?ns"
    by (rule nth_mem)
  ultimately show ?thesis
    by (auto simp: finite_all_names)
qed

lemma compare_benchmarks_map_name:
  assumes "compare_benchmarks b c t = Inr cs"
  shows "map name cs = sorted_list_of_set (all_names b c)"
proof -
  from assms
  have "list_all2 (\<lambda>n y. compare_name b c t n = Inr y) (sorted_list_of_set (all_names b c)) cs"
    by (simp add: compare_benchmarks_Inr)
  then have "list_all2 (\<lambda>n y. name y = n) (sorted_list_of_set (all_names b c)) cs"
    by (rule list_all2_mono) (simp add: compare_name_name)
  then show ?thesis
    by (induction rule: list_all2_induct) auto
qed

lemma compare_benchmarks_returns:
  assumes "\<forall>n r. map_of b n = Some r \<or> map_of c n = Some r \<longrightarrow>
             r ''cpu_time'' \<noteq> None \<or> r ''real_time'' \<noteq> None"
  shows "\<exists>cs. compare_benchmarks b c t = Inr cs"
proof -
  have "\<forall>n\<in>set (sorted_list_of_set (all_names b c)). \<exists>y. compare_name b c t n = Inr y"
    using assms by (auto simp: finite_all_names intro!: compare_name_returns)
  then show ?thesis
    unfolding compare_benchmarks_def by (rule compare_loop_returns)
qed

lemma compare_benchmarks_cong:
  assumes "map_of b' = map_of b" and "map_of c' = map_of c"
  shows "compare_benchmarks b' c' t = compare_benchmarks b c t"
proof -
  have "all_names b' c' = all_names b c"
    by (simp add: all_names_dom assms)
  moreover have "compare_loop b' c' t ns [] = compare_loop b c t ns []" for ns
    by (rule compare_loop_cong) (rule compare_name_cong [OF assms])
  ultimately show ?thesis
    by (simp add: compare_benchmarks_def)
qed


section \<open>The claims about the comparator and the gate\<close>

text \<open>
  C1, as stated, fails on the code. With both times present and a positive baseline,
  a current time of \<open>0\<close> gives the speedup \<open>0\<close>, not \<open>1.0\<close> (first run below); and
  with a baseline of \<open>0\<close> and a positive current time the speedup is \<open>1.0\<close>, not
  \<open>baseline_time / current_time = 0\<close> (second run).
\<close>

theorem compare_benchmarks_speedup_counterexample:
  "compare_benchmarks [(''a'', [''cpu_time'' \<mapsto> 100])] [(''a'', [''cpu_time'' \<mapsto> 0])] (1 / 10) =
     Inr [\<lparr>name = ''a'', baseline_time = Some 100, current_time = Some 0,
           change_percent = - 1, change_type = IMPROVEMENT, speedup = 0\<rparr>]
   \<and> (0::real) \<noteq> 1
   \<and> compare_benchmarks [(''a'', [''cpu_time'' \<mapsto> 0])] [(''a'', [''cpu_time'' \<mapsto> 5])] (1 / 10) =
     Inr [\<lparr>name = ''a'', baseline_time = Some 0, current_time = Some 5,
           change_percent = 0, change_type = UNCHANGED, speedup = 1\<rparr>]
   \<and> (1::real) \<noteq> 0 / 5"
  by (simp add: compare_benchmarks_def sorted_names_eq compare_name_def get_time_def)

text \<open>
  C1, amended: for every comparison produced by \<open>compare_benchmarks\<close>, the speedup is
  \<open>baseline_time / current_time\<close> when both times are present and both are positive;
  it is \<open>0\<close> when both are present, the baseline is positive and the current time is
  not; and it is \<open>1.0\<close> in every other case: a baseline that is not positive, a new
  benchmark, a removed benchmark.
\<close>

theorem compare_benchmarks_speedup:
  assumes "compare_benchmarks baseline current threshold = Inr comparisons"
    and "x \<in> set comparisons"
  shows "(\<forall>bt ct. baseline_time x = Some bt \<and> current_time x = Some ct \<and> bt > 0 \<and> ct > 0
            \<longrightarrow> speedup x = bt / ct)
       \<and> (\<forall>bt ct. baseline_time x = Some bt \<and> current_time x = Some ct \<and> bt > 0 \<and> ct \<le> 0
            \<longrightarrow> speedup x = 0)
       \<and> (\<forall>bt. baseline_time x = Some bt \<and> bt \<le> 0 \<longrightarrow> speedup x = 1)
       \<and> (baseline_time x = None \<or> current_time x = None \<longrightarrow> speedup x = 1)"
proof -
  from compare_benchmarks_member [OF assms]
  obtain n where "compare_name baseline current threshold n = Inr x" by blast
  then show ?thesis
    by (cases rule: compare_name_Inr_cases) auto
qed

theorem compare_benchmarks_speedup_witness:
  "compare_benchmarks [(''a'', [''cpu_time'' \<mapsto> 100])] [(''a'', [''cpu_time'' \<mapsto> 120]), (''b'', [''real_time'' \<mapsto> 50])] (1 / 10) =
     Inr [\<lparr>name = ''a'', baseline_time = Some 100, current_time = Some 120,
           change_percent = 1 / 5, change_type = REGRESSION, speedup = 5 / 6\<rparr>,
          \<lparr>name = ''b'', baseline_time = None, current_time = Some 50,
           change_percent = 0, change_type = NEW, speedup = 1\<rparr>]
   \<and> speedup \<lparr>name = ''a'', baseline_time = Some 100, current_time = Some 120,
           change_percent = 1 / 5, change_type = REGRESSION, speedup = 5 / 6\<rparr> = 100 / 120"
proof -
  let ?b = "[(''a'', [''cpu_time'' \<mapsto> (100::real)])]"
  let ?c = "[(''a'', [''cpu_time'' \<mapsto> (120::real)]), (''b'', [''real_time'' \<mapsto> 50])]"
  let ?x = "\<lparr>name = ''a'', baseline_time = Some 100, current_time = Some 120,
           change_percent = 1 / 5, change_type = REGRESSION, speedup = 5 / 6\<rparr>"
  let ?y = "\<lparr>name = ''b'', baseline_time = None, current_time = Some 50,
           change_percent = 0, change_type = NEW, speedup = 1\<rparr>"
  have run: "compare_benchmarks ?b ?c (1 / 10) = Inr [?x, ?y]"
    by (simp add: compare_benchmarks_def sorted_names_eq compare_name_def get_time_def)
  have mem: "?x \<in> set [?x, ?y]" by simp
  from compare_benchmarks_speedup [OF run mem] have "speedup ?x = 100 / 120"
    by simp
  with run show ?thesis by simp
qed

text \<open>
  C2: for every comparison produced by \<open>compare_benchmarks\<close> with both times present,
  the change type is one of improvement, regression and unchanged; it is regression
  exactly when \<open>change_percent > threshold\<close>; and, the threshold being a non-negative
  fraction, it is improvement exactly when \<open>change_percent < - threshold\<close>, and
  \<open>change_percent = threshold\<close> gives unchanged.
\<close>

theorem compare_benchmarks_classification:
  assumes "compare_benchmarks baseline current threshold = Inr comparisons"
    and "x \<in> set comparisons"
    and "baseline_time x \<noteq> None" and "current_time x \<noteq> None"
  shows "change_type x \<in> {IMPROVEMENT, REGRESSION, UNCHANGED}
       \<and> (change_type x = REGRESSION \<longleftrightarrow> change_percent x > threshold)
       \<and> (0 \<le> threshold \<longrightarrow>
            (change_type x = IMPROVEMENT \<longleftrightarrow> change_percent x < - threshold)
          \<and> (change_percent x = threshold \<longrightarrow> change_type x = UNCHANGED))"
proof -
  from compare_benchmarks_member [OF assms(1,2)]
  obtain n where "compare_name baseline current threshold n = Inr x" by blast
  then show ?thesis
    using assms(3,4) by (cases rule: compare_name_Inr_cases) auto
qed

theorem compare_benchmarks_classification_witness:
  "compare_benchmarks [(''a'', [''cpu_time'' \<mapsto> 100])] [(''a'', [''cpu_time'' \<mapsto> 110])] (1 / 10) =
     Inr [\<lparr>name = ''a'', baseline_time = Some 100, current_time = Some 110,
           change_percent = 1 / 10, change_type = UNCHANGED, speedup = 10 / 11\<rparr>]
   \<and> \<not> (1 / 10 > (1 / 10 :: real)) \<and> \<not> (1 / 10 < - (1 / 10 :: real))"
proof -
  let ?b = "[(''a'', [''cpu_time'' \<mapsto> (100::real)])]"
  let ?c = "[(''a'', [''cpu_time'' \<mapsto> (110::real)])]"
  let ?x = "\<lparr>name = ''a'', baseline_time = Some 100, current_time = Some 110,
           change_percent = 1 / 10, change_type = UNCHANGED, speedup = 10 / 11\<rparr>"
  have run: "compare_benchmarks ?b ?c (1 / 10) = Inr [?x]"
    by (simp add: compare_benchmarks_def sorted_names_eq compare_name_def get_time_def)
  have mem: "?x \<in> set [?x]" by simp
  have b: "baseline_time ?x \<noteq> None" and c: "current_time ?x \<noteq> None" by simp_all
  from compare_benchmarks_classification [OF run mem b c]
  have "\<not> (1 / 10 > (1 / 10 :: real)) \<and> \<not> (1 / 10 < - (1 / 10 :: real))"
    by simp
  with run show ?thesis by simp
qed

text \<open>
  C3: when every record that the comparison reads has a duration field, the comparison
  returns a list with exactly one comparison for each name of the union of the two key
  sets, of the length of that union, in strictly ascending order of the names; and
  dictionaries with the same items in another iteration order give the same list.
\<close>

theorem compare_benchmarks_names:
  assumes "\<forall>n r. map_of baseline n = Some r \<or> map_of current n = Some r \<longrightarrow>
             r ''cpu_time'' \<noteq> None \<or> r ''real_time'' \<noteq> None"
  shows "\<exists>comparisons.
           compare_benchmarks baseline current threshold = Inr comparisons
         \<and> set (map name comparisons) = set (map fst baseline) \<union> set (map fst current)
         \<and> distinct (map name comparisons)
         \<and> length comparisons = card (set (map fst baseline) \<union> set (map fst current))
         \<and> sorted_wrt (<) (map name comparisons)
         \<and> (\<forall>baseline' current'.
               map_of baseline' = map_of baseline \<and> map_of current' = map_of current \<longrightarrow>
               compare_benchmarks baseline' current' threshold = Inr comparisons)"
proof -
  from compare_benchmarks_returns [OF assms]
  obtain cs where cs: "compare_benchmarks baseline current threshold = Inr cs" by blast
  let ?A = "all_names baseline current"
  have names: "map name cs = sorted_list_of_set ?A"
    using cs by (rule compare_benchmarks_map_name)
  have A: "?A = set (map fst baseline) \<union> set (map fst current)"
    by (simp add: all_names_def)
  have 1: "set (map name cs) = set (map fst baseline) \<union> set (map fst current)"
    unfolding names A [symmetric] by (simp add: finite_all_names)
  have 2: "distinct (map name cs)"
    unfolding names by simp
  have "length (map name cs) = card ?A"
    unfolding names by simp
  then have 3: "length cs = card (set (map fst baseline) \<union> set (map fst current))"
    by (simp add: A)
  have 4: "sorted_wrt (<) (map name cs)"
    unfolding names by (simp add: strict_sorted_iff)
  have 5: "compare_benchmarks baseline' current' threshold = Inr cs"
    if "map_of baseline' = map_of baseline \<and> map_of current' = map_of current"
    for baseline' current'
  proof -
    from that have "compare_benchmarks baseline' current' threshold =
        compare_benchmarks baseline current threshold"
      by (intro compare_benchmarks_cong) simp_all
    with cs show ?thesis by simp
  qed
  show ?thesis
    by (intro exI [of _ cs] conjI allI impI cs 1 2 3 4) (erule 5)
qed

theorem compare_benchmarks_names_witness:
  "compare_benchmarks [(''b'', [''cpu_time'' \<mapsto> 100]), (''a'', [''real_time'' \<mapsto> 5])]
      [(''c'', [''cpu_time'' \<mapsto> 1]), (''a'', [''cpu_time'' \<mapsto> 5])] (1 / 10) =
     Inr [\<lparr>name = ''a'', baseline_time = Some 5, current_time = Some 5,
           change_percent = 0, change_type = UNCHANGED, speedup = 1\<rparr>,
          \<lparr>name = ''b'', baseline_time = Some 100, current_time = None,
           change_percent = 0, change_type = REMOVED, speedup = 1\<rparr>,
          \<lparr>name = ''c'', baseline_time = None, current_time = Some 1,
           change_percent = 0, change_type = NEW, speedup = 1\<rparr>]
   \<and> compare_benchmarks [(''a'', [''real_time'' \<mapsto> 5]), (''b'', [''cpu_time'' \<mapsto> 100])]
      [(''a'', [''cpu_time'' \<mapsto> 5]), (''c'', [''cpu_time'' \<mapsto> 1])] (1 / 10) =
     compare_benchmarks [(''b'', [''cpu_time'' \<mapsto> 100]), (''a'', [''real_time'' \<mapsto> 5])]
      [(''c'', [''cpu_time'' \<mapsto> 1]), (''a'', [''cpu_time'' \<mapsto> 5])] (1 / 10)"
proof -
  let ?b = "[(''b'', [''cpu_time'' \<mapsto> (100::real)]), (''a'', [''real_time'' \<mapsto> 5])]"
  let ?c = "[(''c'', [''cpu_time'' \<mapsto> (1::real)]), (''a'', [''cpu_time'' \<mapsto> 5])]"
  let ?b' = "[(''a'', [''real_time'' \<mapsto> (5::real)]), (''b'', [''cpu_time'' \<mapsto> 100])]"
  let ?c' = "[(''a'', [''cpu_time'' \<mapsto> (5::real)]), (''c'', [''cpu_time'' \<mapsto> 1])]"
  have run: "compare_benchmarks ?b ?c (1 / 10) =
     Inr [\<lparr>name = ''a'', baseline_time = Some 5, current_time = Some 5,
           change_percent = 0, change_type = UNCHANGED, speedup = 1\<rparr>,
          \<lparr>name = ''b'', baseline_time = Some 100, current_time = None,
           change_percent = 0, change_type = REMOVED, speedup = 1\<rparr>,
          \<lparr>name = ''c'', baseline_time = None, current_time = Some 1,
           change_percent = 0, change_type = NEW, speedup = 1\<rparr>]"
    by (simp add: compare_benchmarks_def sorted_names_eq compare_name_def get_time_def)
  have records: "\<forall>n r. map_of ?b n = Some r \<or> map_of ?c n = Some r \<longrightarrow>
             r ''cpu_time'' \<noteq> None \<or> r ''real_time'' \<noteq> None"
    by (auto split: if_splits)
  have same: "map_of ?b' = map_of ?b \<and> map_of ?c' = map_of ?c"
    by (auto simp: fun_eq_iff)
  from compare_benchmarks_names [OF records, of "1 / 10"]
  obtain cs where cs: "compare_benchmarks ?b ?c (1 / 10) = Inr cs"
    and ind: "\<forall>baseline' current'.
               map_of baseline' = map_of ?b \<and> map_of current' = map_of ?c \<longrightarrow>
               compare_benchmarks baseline' current' (1 / 10) = Inr cs"
    by blast
  from ind same have "compare_benchmarks ?b' ?c' (1 / 10) = Inr cs" by blast
  with cs have "compare_benchmarks ?b' ?c' (1 / 10) = compare_benchmarks ?b ?c (1 / 10)"
    by simp
  with run show ?thesis by (intro conjI)
qed

text \<open>
  C5: if a record that the comparison reads for some name has neither \<open>cpu_time\<close> nor
  \<open>real_time\<close>, then \<open>get_time\<close> raises the ValueError on it and
  \<open>compare_benchmarks\<close> ends with that exception: it returns no list at all.
\<close>

theorem compare_benchmarks_aborts:
  assumes "map_of baseline n = Some r \<or> map_of current n = Some r"
    and "r ''cpu_time'' = None" and "r ''real_time'' = None"
  shows "get_time r = Inl ValueError
       \<and> compare_benchmarks baseline current threshold = Inl ValueError"
proof
  show "get_time r = Inl ValueError"
    using assms(2,3) by (rule get_time_missing)
next
  let ?ns = "sorted_list_of_set (all_names baseline current)"
  from assms(1) have "n \<in> all_names baseline current"
    by (auto simp: all_names_dom)
  then have mem: "n \<in> set ?ns"
    by (simp add: finite_all_names)
  have raise: "compare_name baseline current threshold n = Inl ValueError"
    using assms by (rule compare_name_raises)
  have only: "\<forall>m\<in>set ?ns. \<forall>e'. compare_name baseline current threshold m = Inl e'
                \<longrightarrow> e' = ValueError"
    by (auto simp: finite_all_names dest: compare_name_Inl)
  show "compare_benchmarks baseline current threshold = Inl ValueError"
    unfolding compare_benchmarks_def by (rule compare_loop_Inl [OF mem raise only])
qed

theorem compare_benchmarks_aborts_witness:
  "get_time [''iterations'' \<mapsto> 3] = Inl ValueError
   \<and> compare_benchmarks [(''a'', [''cpu_time'' \<mapsto> 100]), (''b'', [''iterations'' \<mapsto> 3])]
      [(''a'', [''cpu_time'' \<mapsto> 120])] (1 / 10) = Inl ValueError"
proof -
  let ?b = "[(''a'', [''cpu_time'' \<mapsto> (100::real)]), (''b'', [''iterations'' \<mapsto> 3])]"
  let ?c = "[(''a'', [''cpu_time'' \<mapsto> (120::real)])]"
  let ?r = "[''iterations'' \<mapsto> (3::real)]"
  have look: "map_of ?b ''b'' = Some ?r \<or> map_of ?c ''b'' = Some ?r" by simp
  have f1: "?r ''cpu_time'' = None" and f2: "?r ''real_time'' = None" by simp_all
  show ?thesis
    by (rule compare_benchmarks_aborts [OF look f1 f2])
qed

text \<open>
  C6: for every comparison produced by \<open>compare_benchmarks\<close>, \<open>change_percent\<close> is
  \<open>(current_time - baseline_time) / baseline_time\<close> when both times are present and
  the baseline is positive, and \<open>0\<close> when the baseline is \<open>0\<close> or a time is absent.
\<close>

theorem compare_benchmarks_change_percent:
  assumes "compare_benchmarks baseline current threshold = Inr comparisons"
    and "x \<in> set comparisons"
  shows "(\<forall>bt ct. baseline_time x = Some bt \<and> current_time x = Some ct \<and> bt > 0
            \<longrightarrow> change_percent x = (ct - bt) / bt)
       \<and> (baseline_time x = Some 0 \<longrightarrow> change_percent x = 0)
       \<and> (baseline_time x = None \<or> current_time x = None \<longrightarrow> change_percent x = 0)"
proof -
  from compare_benchmarks_member [OF assms]
  obtain n where "compare_name baseline current threshold n = Inr x" by blast
  then show ?thesis
    by (cases rule: compare_name_Inr_cases) auto
qed

theorem compare_benchmarks_change_percent_witness:
  "compare_benchmarks [(''a'', [''cpu_time'' \<mapsto> 100]), (''z'', [''cpu_time'' \<mapsto> 7])]
      [(''a'', [''cpu_time'' \<mapsto> 120])] (1 / 10) =
     Inr [\<lparr>name = ''a'', baseline_time = Some 100, current_time = Some 120,
           change_percent = 1 / 5, change_type = REGRESSION, speedup = 5 / 6\<rparr>,
          \<lparr>name = ''z'', baseline_time = Some 7, current_time = None,
           change_percent = 0, change_type = REMOVED, speedup = 1\<rparr>]
   \<and> (1 / 5 :: real) = (120 - 100) / 100"
proof -
  let ?b = "[(''a'', [''cpu_time'' \<mapsto> (100::real)]), (''z'', [''cpu_time'' \<mapsto> 7])]"
  let ?c = "[(''a'', [''cpu_time'' \<mapsto> (120::real)])]"
  let ?x = "\<lparr>name = ''a'', baseline_time = Some 100, current_time = Some 120,
           change_percent = 1 / 5, change_type = REGRESSION, speedup = 5 / 6\<rparr>"
  let ?y = "\<lparr>name = ''z'', baseline_time = Some 7, current_time = None,
           change_percent = 0, change_type = REMOVED, speedup = 1\<rparr>"
  have run: "compare_benchmarks ?b ?c (1 / 10) = Inr [?x, ?y]"
    by (simp add: compare_benchmarks_def sorted_names_eq compare_name_def get_time_def)
  have mem: "?x \<in> set [?x, ?y]" by simp
  have b: "baseline_time ?x = Some 100 \<and> current_time ?x = Some 120 \<and> (100::real) > 0"
    by simp
  from compare_benchmarks_change_percent [OF run mem, THEN conjunct1, rule_format, OF b]
  have "(1 / 5 :: real) = (120 - 100) / 100"
    by simp
  with run show ?thesis by (intro conjI)
qed

text \<open>
  C7: the boolean of \<open>check_regression\<close> is true exactly when some comparison is a
  regression; its list is the regressions among the comparisons, in the order of the
  input, and is empty exactly when the boolean is false.
\<close>

theorem check_regression_filter:
  "fst (check_regression comparisons threshold) =
      (\<exists>c\<in>set comparisons. change_type c = REGRESSION)
   \<and> snd (check_regression comparisons threshold) =
      filter (\<lambda>c. change_type c = REGRESSION) comparisons
   \<and> subseq (snd (check_regression comparisons threshold)) comparisons
   \<and> set (snd (check_regression comparisons threshold)) =
      {c \<in> set comparisons. change_type c = REGRESSION}
   \<and> (fst (check_regression comparisons threshold) \<longleftrightarrow>
        snd (check_regression comparisons threshold) \<noteq> [])"
  by (auto simp: check_regression_def Let_def filter_empty_conv)

theorem check_regression_filter_witness:
  "fst (check_regression
     [\<lparr>name = ''a'', baseline_time = Some 100, current_time = Some 120,
        change_percent = 1 / 5, change_type = REGRESSION, speedup = 5 / 6\<rparr>,
      \<lparr>name = ''b'', baseline_time = None, current_time = Some 50,
        change_percent = 0, change_type = NEW, speedup = 1\<rparr>] (1 / 10))
   \<and> snd (check_regression
     [\<lparr>name = ''a'', baseline_time = Some 100, current_time = Some 120,
        change_percent = 1 / 5, change_type = REGRESSION, speedup = 5 / 6\<rparr>,
      \<lparr>name = ''b'', baseline_time = None, current_time = Some 50,
        change_percent = 0, change_type = NEW, speedup = 1\<rparr>] (1 / 10)) =
     [\<lparr>name = ''a'', baseline_time = Some 100, current_time = Some 120,
        change_percent = 1 / 5, change_type = REGRESSION, speedup = 5 / 6\<rparr>]"
  using check_regression_filter [of
     "[\<lparr>name = ''a'', baseline_time = Some 100, current_time = Some 120,
        change_percent = 1 / 5, change_type = REGRESSION, speedup = 5 / 6\<rparr>,
      \<lparr>name = ''b'', baseline_time = None, current_time = Some 50,
        change_percent = 0, change_type = NEW, speedup = 1\<rparr>]" "1 / 10"]
  by simp

text \<open>
  C10: the result of \<open>check_regression\<close> does not depend on its threshold.
\<close>

theorem check_regression_threshold_independent:
  "check_regression comparisons t1 = check_regression comparisons t2"
  by (simp add: check_regression_def)


section \<open>Properties of the loader\<close>

lemma py_getitem_Inl: "py_getitem v k = Inl e \<Longrightarrow> e = KeyError \<or> e = TypeError"
  by (cases v) (auto split: option.splits)

lemma by_name_fails:
  assumes "b \<in> set bs" and "py_getitem b ''name'' = Inl e"
  shows "by_name bs d = Inl KeyError \<or> by_name bs d = Inl TypeError"
  using assms(1)
proof (induction bs arbitrary: d)
  case Nil
  then show ?case by simp
next
  case (Cons a bs)
  show ?case
  proof (cases "py_getitem a ''name''")
    case (Inl e')
    with py_getitem_Inl [OF Inl] show ?thesis by auto
  next
    case (Inr k)
    with assms(2) have "a \<noteq> b" by auto
    with Cons.prems have "b \<in> set bs" by simp
    then have "by_name bs (dict_set d k a) = Inl KeyError \<or> by_name bs (dict_set d k a) = Inl TypeError"
      by (rule Cons.IH)
    with Inr show ?thesis by auto
  qed
qed

lemma by_name_first_missing:
  assumes "\<forall>b\<in>set pre. \<exists>k. py_getitem b ''name'' = Inr k \<and> hashable k"
    and "py_getitem b ''name'' = Inl e"
  shows "by_name (pre @ b # post) d = Inl e"
  using assms(1)
proof (induction pre arbitrary: d)
  case Nil
  with assms(2) show ?case by simp
next
  case (Cons a pre)
  then obtain k where k: "py_getitem a ''name'' = Inr k" "hashable k" by auto
  from Cons.prems have "\<forall>b\<in>set pre. \<exists>k. py_getitem b ''name'' = Inr k \<and> hashable k" by simp
  then have "by_name (pre @ b # post) (dict_set d k a) = Inl e" by (rule Cons.IH)
  with k show ?case by simp
qed

lemma load_benchmark_json_list:
  assumes "map_of d (PStr ''benchmarks'') = Some (PList bs)"
  shows "load_benchmark_json (PDict d) =
     (case by_name bs [] of Inl e \<Rightarrow> Inl e | Inr r \<Rightarrow> Inr (PDict r))"
proof -
  from assms have "(PStr ''benchmarks'', PList bs) \<in> set d" by (rule map_of_SomeD)
  then have "PStr ''benchmarks'' \<in> fst ` set d" by force
  with assms show ?thesis by (simp add: load_benchmark_json_def)
qed

section \<open>Properties of the report\<close>

text \<open>
  The report reads a comparison through its change type and its three rows only, so
  two comparisons that agree on these give the same lines.
\<close>

lemma report_lines_cong:
  assumes "change_type c' = change_type c"
    and r: "regression_row c' = regression_row c"
    and i: "improvement_row c' = improvement_row c"
    and a: "result_row c' = result_row c"
  shows "report_lines (xs @ c' # ys) bf cf = report_lines (xs @ c # ys) bf cf"
proof -
  have f: "map g (filter (\<lambda>c. change_type c = k) (xs @ c' # ys)) =
           map g (filter (\<lambda>c. change_type c = k) (xs @ c # ys))"
    if "g c' = g c" for g :: "BenchmarkComparison \<Rightarrow> string" and k
    using assms(1) that by simp
  have n: "filter (\<lambda>c. change_type c = k) (xs @ c' # ys) = [] \<longleftrightarrow>
           filter (\<lambda>c. change_type c = k) (xs @ c # ys) = []" for k
    using assms(1) by simp
  have l: "length (filter (\<lambda>c. change_type c = k) (xs @ c' # ys)) =
           length (filter (\<lambda>c. change_type c = k) (xs @ c # ys))" for k
    using assms(1) by simp
  have m: "map result_row (xs @ c' # ys) = map result_row (xs @ c # ys)"
    by (simp add: a)
  show ?thesis
    unfolding report_lines_def Let_def f [OF r] f [OF i] n l m by (rule refl)
qed

lemma result_row_in_report:
  "c \<in> set comparisons \<Longrightarrow> result_row c \<in> set (report_lines comparisons bf cf)"
  by (simp add: report_lines_def Let_def)

lemma regression_row_in_report:
  "c \<in> set comparisons \<Longrightarrow> change_type c = REGRESSION \<Longrightarrow>
     regression_row c \<in> set (report_lines comparisons bf cf)"
  by (auto simp: report_lines_def Let_def filter_empty_conv)

lemma improvement_row_in_report:
  "c \<in> set comparisons \<Longrightarrow> change_type c = IMPROVEMENT \<Longrightarrow>
     improvement_row c \<in> set (report_lines comparisons bf cf)"
  by (auto simp: report_lines_def Let_def filter_empty_conv)

lemma report_baseline_zero:
  assumes "baseline_time c = Some 0"
  shows "generate_markdown_report (xs @ c # ys) bf cf =
         generate_markdown_report (xs @ c\<lparr>baseline_time := None\<rparr> # ys) bf cf"
proof -
  have "report_lines (xs @ c\<lparr>baseline_time := None\<rparr> # ys) bf cf = report_lines (xs @ c # ys) bf cf"
    using assms
    by (intro report_lines_cong)
       (simp_all add: regression_row_def improvement_row_def result_row_def time_cell_def)
  then show ?thesis by (simp add: generate_markdown_report_def)
qed

lemma report_current_zero:
  assumes "current_time c = Some 0"
  shows "generate_markdown_report (xs @ c # ys) bf cf =
         generate_markdown_report (xs @ c\<lparr>current_time := None\<rparr> # ys) bf cf"
proof -
  have "report_lines (xs @ c\<lparr>current_time := None\<rparr> # ys) bf cf = report_lines (xs @ c # ys) bf cf"
    using assms
    by (intro report_lines_cong)
       (simp_all add: regression_row_def improvement_row_def result_row_def time_cell_def)
  then show ?thesis by (simp add: generate_markdown_report_def)
qed

text \<open>Every line but the first is in the returned text, after a line break and up to the next one or the end.\<close>

lemma join_Cons: "ls \<noteq> [] \<Longrightarrow> join sep (h # ls) = h @ sep @ join sep ls"
  by (cases ls) simp_all

lemma join_append_Cons:
  "join sep ((h # as) @ x # bs) =
     join sep (h # as) @ sep @ x @ (if bs = [] then [] else sep @ join sep bs)"
proof (induction as arbitrary: h)
  case Nil
  show ?case by (cases bs) simp_all
next
  case (Cons a as)
  have "join sep ((h # a # as) @ x # bs) = h @ sep @ join sep ((a # as) @ x # bs)"
    by simp
  also have "\<dots> = h @ sep @ join sep (a # as) @ sep @ x @ (if bs = [] then [] else sep @ join sep bs)"
    by (simp only: Cons.IH)
  also have "\<dots> = join sep (h # a # as) @ sep @ x @ (if bs = [] then [] else sep @ join sep bs)"
    by simp
  finally show ?case .
qed

lemma join_line:
  assumes "x \<in> set (tl ls)"
  shows "\<exists>pre post. join sep ls = pre @ sep @ x @ post \<and> (post = [] \<or> (\<exists>p. post = sep @ p))"
proof -
  from assms obtain h rest where ls: "ls = h # rest" and "x \<in> set rest"
    by (cases ls) auto
  then obtain as bs where rest: "rest = as @ x # bs"
    by (auto simp: in_set_conv_decomp)
  have "join sep ls = join sep ((h # as) @ x # bs)"
    by (simp add: ls rest)
  also have "\<dots> = join sep (h # as) @ sep @ x @ (if bs = [] then [] else sep @ join sep bs)"
    by (rule join_append_Cons)
  finally have eq: "join sep ls =
      join sep (h # as) @ sep @ x @ (if bs = [] then [] else sep @ join sep bs)" .
  show ?thesis
  proof (intro exI conjI)
    show "join sep ls = join sep (h # as) @ sep @ x @ (if bs = [] then [] else sep @ join sep bs)"
      by (rule eq)
    show "(if bs = [] then [] else sep @ join sep bs) = [] \<or>
          (\<exists>p. (if bs = [] then [] else sep @ join sep bs) = sep @ p)"
      by simp
  qed
qed

lemma result_row_in_tl:
  "c \<in> set comparisons \<Longrightarrow> result_row c \<in> set (tl (report_lines comparisons bf cf))"
  by (simp add: report_lines_def Let_def)

lemma regression_row_in_tl:
  "c \<in> set comparisons \<Longrightarrow> change_type c = REGRESSION \<Longrightarrow>
     regression_row c \<in> set (tl (report_lines comparisons bf cf))"
  by (auto simp: report_lines_def Let_def filter_empty_conv)

lemma improvement_row_in_tl:
  "c \<in> set comparisons \<Longrightarrow> change_type c = IMPROVEMENT \<Longrightarrow>
     improvement_row c \<in> set (tl (report_lines comparisons bf cf))"
  by (auto simp: report_lines_def Let_def filter_empty_conv)

lemma report_has_line:
  assumes "l \<in> set (tl (report_lines comparisons bf cf))"
  shows "\<exists>pre post. generate_markdown_report comparisons bf cf = pre @ [CHR 0x0A] @ l @ post
           \<and> (post = [] \<or> (\<exists>p. post = [CHR 0x0A] @ p))"
  unfolding generate_markdown_report_def using assms by (rule join_line)

section \<open>Properties of the formatter\<close>

text \<open>Every duration is rendered with exactly two decimals, whatever its unit.\<close>

lemma str_nat_length_2: "m < 100 \<Longrightarrow> length (str_nat m) \<le> 2"
  by (subst str_nat.simps, subst str_nat.simps) (simp add: less_mult_imp_div_less)

lemma fmt_fixed_two_decimals:
  "\<exists>sgn ip fr. fmt_fixed 2 x = sgn @ ip @ ''.'' @ fr \<and> length fr = 2"
proof -
  define n where "n = round_half_even (\<bar>x\<bar> * 10 ^ 2)"
  define frac where "frac = str_nat (n mod 10 ^ 2)"
  have "length frac \<le> 2"
    unfolding frac_def by (rule str_nat_length_2) simp
  then have "length (replicate (2 - length frac) (CHR ''0'') @ frac) = 2"
    by simp
  moreover have "fmt_fixed 2 x = (if x < 0 then ''-'' else []) @ str_nat (n div 10 ^ 2) @ ''.''
      @ (replicate (2 - length frac) (CHR ''0'') @ frac)"
    by (simp add: fmt_fixed_def Let_def n_def frac_def)
  ultimately show ?thesis by blast
qed

section \<open>The claims about the loader, the formatter and the report\<close>

text \<open>
  C4, as stated, fails on the code: an input that is not an object at all, such as an
  array or a string, is returned as it is, and no exception is raised.
\<close>

theorem load_benchmark_json_counterexample:
  "load_benchmark_json (PList []) = Inr (PList [])
   \<and> load_benchmark_json (PStr ''fast'') = Inr (PStr ''fast'')"
  by (simp add: load_benchmark_json_def)

text \<open>
  C4, amended: the loader has no FormatError of its own. It raises a TypeError when the
  input is null, a boolean or a number; it raises when the list under \<open>benchmarks\<close>
  holds an object without a \<open>name\<close> field, a KeyError if the entries before it have
  hashable names and a KeyError or a TypeError in general; the exception is the result
  of the loader, which handles none. An array that does not hold the string
  \<open>benchmarks\<close>, and a string in which \<open>benchmarks\<close> does not occur, are returned
  unchanged.
\<close>

theorem load_benchmark_json_failures:
  "(data = PNone \<or> (\<exists>b. data = PBool b) \<or> (\<exists>x. data = PNum x) \<longrightarrow>
      load_benchmark_json data = Inl TypeError)
   \<and> (map_of d (PStr ''benchmarks'') = Some (PList bs)
        \<and> (\<exists>r. PDict r \<in> set bs \<and> map_of r (PStr ''name'') = None) \<longrightarrow>
      load_benchmark_json (PDict d) = Inl KeyError
      \<or> load_benchmark_json (PDict d) = Inl TypeError)
   \<and> (map_of d (PStr ''benchmarks'') = Some (PList (pre @ PDict r # post))
        \<and> (\<forall>b\<in>set pre. \<exists>k. py_getitem b ''name'' = Inr k \<and> hashable k)
        \<and> map_of r (PStr ''name'') = None \<longrightarrow>
      load_benchmark_json (PDict d) = Inl KeyError)
   \<and> (PStr ''benchmarks'' \<notin> set xs \<longrightarrow> load_benchmark_json (PList xs) = Inr (PList xs))
   \<and> (\<not> is_substring ''benchmarks'' s \<longrightarrow> load_benchmark_json (PStr s) = Inr (PStr s))"
proof (intro conjI impI)
  assume "data = PNone \<or> (\<exists>b. data = PBool b) \<or> (\<exists>x. data = PNum x)"
  then show "load_benchmark_json data = Inl TypeError"
    by (auto simp: load_benchmark_json_def)
next
  assume a: "map_of d (PStr ''benchmarks'') = Some (PList bs)
        \<and> (\<exists>r. PDict r \<in> set bs \<and> map_of r (PStr ''name'') = None)"
  then obtain r where r: "PDict r \<in> set bs" "map_of r (PStr ''name'') = None" by blast
  from r(2) have "py_getitem (PDict r) ''name'' = Inl KeyError" by simp
  from by_name_fails [OF r(1) this, of "[]"] a
  show "load_benchmark_json (PDict d) = Inl KeyError
      \<or> load_benchmark_json (PDict d) = Inl TypeError"
    by (auto simp: load_benchmark_json_list)
next
  assume a: "map_of d (PStr ''benchmarks'') = Some (PList (pre @ PDict r # post))
        \<and> (\<forall>b\<in>set pre. \<exists>k. py_getitem b ''name'' = Inr k \<and> hashable k)
        \<and> map_of r (PStr ''name'') = None"
  then have "py_getitem (PDict r) ''name'' = Inl KeyError" by simp
  with a have "by_name (pre @ PDict r # post) [] = Inl KeyError"
    by (intro by_name_first_missing) simp_all
  with a show "load_benchmark_json (PDict d) = Inl KeyError"
    by (simp add: load_benchmark_json_list)
next
  assume "PStr ''benchmarks'' \<notin> set xs"
  then show "load_benchmark_json (PList xs) = Inr (PList xs)"
    by (simp add: load_benchmark_json_def)
next
  assume "\<not> is_substring ''benchmarks'' s"
  then show "load_benchmark_json (PStr s) = Inr (PStr s)"
    by (simp add: load_benchmark_json_def)
qed

theorem load_benchmark_json_failures_witness:
  "load_benchmark_json (PNum 5) = Inl TypeError
   \<and> load_benchmark_json (PDict [(PStr ''benchmarks'',
        PList [PDict [(PStr ''name'', PStr ''a''), (PStr ''cpu_time'', PNum 1)],
               PDict [(PStr ''cpu_time'', PNum 2)]])]) = Inl KeyError
   \<and> load_benchmark_json (PList [PNum 1, PNum 2]) = Inr (PList [PNum 1, PNum 2])
   \<and> load_benchmark_json (PStr ''fast'') = Inr (PStr ''fast'')"
proof -
  let ?a = "PDict [(PStr ''name'', PStr ''a''), (PStr ''cpu_time'', PNum 1)]"
  let ?r = "[(PStr ''cpu_time'', PNum 2)]"
  let ?d = "[(PStr ''benchmarks'', PList ([?a] @ PDict ?r # []))]"
  note t = load_benchmark_json_failures [of "PNum 5" ?d "[?a, PDict ?r]" "[?a]" ?r "[]" "[PNum 1, PNum 2]" "''fast''"]
  have 1: "load_benchmark_json (PNum 5) = Inl TypeError"
    using t [THEN conjunct1] by simp
  have 3: "load_benchmark_json (PDict ?d) = Inl KeyError"
    using t [THEN conjunct2, THEN conjunct2, THEN conjunct1] by simp
  have 4: "load_benchmark_json (PList [PNum 1, PNum 2]) = Inr (PList [PNum 1, PNum 2])"
    using t [THEN conjunct2, THEN conjunct2, THEN conjunct2, THEN conjunct1] by simp
  have 5: "load_benchmark_json (PStr ''fast'') = Inr (PStr ''fast'')"
    using t [THEN conjunct2, THEN conjunct2, THEN conjunct2, THEN conjunct2] by simp
  from 1 3 4 5 show ?thesis by simp
qed

text \<open>
  C8 at its two examples: \<open>format_time(999)\<close> is \<open>999.00 ns\<close>, and \<open>format_time(1000)\<close>
  is \<open>1.00\<close> followed by the unit that the source spells with the code points U+00AC
  and U+00B5 before the \<open>s\<close>, which is not the text \<open>1.00\<close> with the micro sign and
  \<open>s\<close> that the claim gives.
\<close>

theorem format_time_boundary:
  "format_time 999 = ''999.00 ns''
   \<and> format_time 1000 = ''1.00 '' @ [CHR 0xC2, CHR 0xAC, CHR 0xC2, CHR 0xB5] @ ''s''
   \<and> format_time 1000 \<noteq> ''1.00 '' @ [CHR 0xC2, CHR 0xB5] @ ''s''"
  by (simp add: format_time_def fmt_fixed_def round_half_even_def str_nat.simps)

text \<open>
  C9: for a comparison of the list whose baseline time, or current time, is present and
  equal to zero, the text that \<open>generate_markdown_report\<close> returns holds, as a line of
  its own, the row of the comparison in the table of all results with \<open>N/A\<close> in that
  cell, and likewise its row of the regressions or improvements table when it has one;
  and the returned text is the same as for the comparison with that time absent.
\<close>

theorem generate_markdown_report_zero_time:
  assumes "c \<in> set comparisons"
  shows "(baseline_time c = Some 0 \<longrightarrow>
            result_row c \<in> set (report_lines comparisons bf cf)
          \<and> (\<exists>pre rest post.
                generate_markdown_report comparisons bf cf =
                  pre @ [CHR 0x0A] @ (''| '' @ name c @ '' | N/A | '') @ rest @ post
              \<and> result_row c = (''| '' @ name c @ '' | N/A | '') @ rest
              \<and> (post = [] \<or> (\<exists>p. post = [CHR 0x0A] @ p)))
          \<and> (change_type c = REGRESSION \<longrightarrow>
                regression_row c \<in> set (report_lines comparisons bf cf)
              \<and> (\<exists>pre rest post.
                generate_markdown_report comparisons bf cf =
                  pre @ [CHR 0x0A] @ (''| '' @ name c @ '' | N/A | '') @ rest @ post
              \<and> regression_row c = (''| '' @ name c @ '' | N/A | '') @ rest
              \<and> (post = [] \<or> (\<exists>p. post = [CHR 0x0A] @ p))))
          \<and> (change_type c = IMPROVEMENT \<longrightarrow>
                improvement_row c \<in> set (report_lines comparisons bf cf)
              \<and> (\<exists>pre rest post.
                generate_markdown_report comparisons bf cf =
                  pre @ [CHR 0x0A] @ (''| '' @ name c @ '' | N/A | '') @ rest @ post
              \<and> improvement_row c = (''| '' @ name c @ '' | N/A | '') @ rest
              \<and> (post = [] \<or> (\<exists>p. post = [CHR 0x0A] @ p))))
          \<and> (\<forall>xs ys. comparisons = xs @ c # ys \<longrightarrow>
                generate_markdown_report comparisons bf cf =
                generate_markdown_report (xs @ c\<lparr>baseline_time := None\<rparr> # ys) bf cf))
       \<and> (current_time c = Some 0 \<longrightarrow>
            result_row c \<in> set (report_lines comparisons bf cf)
          \<and> (\<exists>pre rest post.
                generate_markdown_report comparisons bf cf =
                  pre @ [CHR 0x0A] @ (''| '' @ name c @ '' | '' @ time_cell (baseline_time c) @ '' | N/A | '') @ rest @ post
              \<and> result_row c = (''| '' @ name c @ '' | '' @ time_cell (baseline_time c) @ '' | N/A | '') @ rest
              \<and> (post = [] \<or> (\<exists>p. post = [CHR 0x0A] @ p)))
          \<and> (change_type c = REGRESSION \<longrightarrow>
                regression_row c \<in> set (report_lines comparisons bf cf)
              \<and> (\<exists>pre rest post.
                generate_markdown_report comparisons bf cf =
                  pre @ [CHR 0x0A] @ (''| '' @ name c @ '' | '' @ time_cell (baseline_time c) @ '' | N/A | '') @ rest @ post
              \<and> regression_row c = (''| '' @ name c @ '' | '' @ time_cell (baseline_time c) @ '' | N/A | '') @ rest
              \<and> (post = [] \<or> (\<exists>p. post = [CHR 0x0A] @ p))))
          \<and> (change_type c = IMPROVEMENT \<longrightarrow>
                improvement_row c \<in> set (report_lines comparisons bf cf)
              \<and> (\<exists>pre rest post.
                generate_markdown_report comparisons bf cf =
                  pre @ [CHR 0x0A] @ (''| '' @ name c @ '' | '' @ time_cell (baseline_time c) @ '' | N/A | '') @ rest @ post
              \<and> improvement_row c = (''| '' @ name c @ '' | '' @ time_cell (baseline_time c) @ '' | N/A | '') @ rest
              \<and> (post = [] \<or> (\<exists>p. post = [CHR 0x0A] @ p))))
          \<and> (\<forall>xs ys. comparisons = xs @ c # ys \<longrightarrow>
                generate_markdown_report comparisons bf cf =
                generate_markdown_report (xs @ c\<lparr>current_time := None\<rparr> # ys) bf cf))"
proof -
  have result_row_baseline_time: "(\<exists>pre rest post.
                generate_markdown_report comparisons bf cf =
                  pre @ [CHR 0x0A] @ (''| '' @ name c @ '' | N/A | '') @ rest @ post
              \<and> result_row c = (''| '' @ name c @ '' | N/A | '') @ rest
              \<and> (post = [] \<or> (\<exists>p. post = [CHR 0x0A] @ p)))"
    if z: "baseline_time c = Some 0"
  proof -
    from z obtain rest where rest: "result_row c = (''| '' @ name c @ '' | N/A | '') @ rest"
      by (simp add: result_row_def time_cell_def Let_def)
    have "result_row c \<in> set (tl (report_lines comparisons bf cf))"
      using assms by (rule result_row_in_tl)
    from report_has_line [OF this]
    obtain pre post where "generate_markdown_report comparisons bf cf =
        pre @ [CHR 0x0A] @ result_row c @ post"
      and "post = [] \<or> (\<exists>p. post = [CHR 0x0A] @ p)"
      by blast
    with rest show ?thesis
      by (intro exI [of _ pre] exI [of _ rest] exI [of _ post]) simp
  qed
  have regression_row_baseline_time: "(\<exists>pre rest post.
                generate_markdown_report comparisons bf cf =
                  pre @ [CHR 0x0A] @ (''| '' @ name c @ '' | N/A | '') @ rest @ post
              \<and> regression_row c = (''| '' @ name c @ '' | N/A | '') @ rest
              \<and> (post = [] \<or> (\<exists>p. post = [CHR 0x0A] @ p)))"
    if z: "baseline_time c = Some 0" and k: "change_type c = REGRESSION"
  proof -
    from z obtain rest where rest: "regression_row c = (''| '' @ name c @ '' | N/A | '') @ rest"
      by (simp add: regression_row_def time_cell_def Let_def)
    have "regression_row c \<in> set (tl (report_lines comparisons bf cf))"
      using assms k by (rule regression_row_in_tl)
    from report_has_line [OF this]
    obtain pre post where "generate_markdown_report comparisons bf cf =
        pre @ [CHR 0x0A] @ regression_row c @ post"
      and "post = [] \<or> (\<exists>p. post = [CHR 0x0A] @ p)"
      by blast
    with rest show ?thesis
      by (intro exI [of _ pre] exI [of _ rest] exI [of _ post]) simp
  qed
  have improvement_row_baseline_time: "(\<exists>pre rest post.
                generate_markdown_report comparisons bf cf =
                  pre @ [CHR 0x0A] @ (''| '' @ name c @ '' | N/A | '') @ rest @ post
              \<and> improvement_row c = (''| '' @ name c @ '' | N/A | '') @ rest
              \<and> (post = [] \<or> (\<exists>p. post = [CHR 0x0A] @ p)))"
    if z: "baseline_time c = Some 0" and k: "change_type c = IMPROVEMENT"
  proof -
    from z obtain rest where rest: "improvement_row c = (''| '' @ name c @ '' | N/A | '') @ rest"
      by (simp add: improvement_row_def time_cell_def Let_def)
    have "improvement_row c \<in> set (tl (report_lines comparisons bf cf))"
      using assms k by (rule improvement_row_in_tl)
    from report_has_line [OF this]
    obtain pre post where "generate_markdown_report comparisons bf cf =
        pre @ [CHR 0x0A] @ improvement_row c @ post"
      and "post = [] \<or> (\<exists>p. post = [CHR 0x0A] @ p)"
      by blast
    with rest show ?thesis
      by (intro exI [of _ pre] exI [of _ rest] exI [of _ post]) simp
  qed
  have result_row_current_time: "(\<exists>pre rest post.
                generate_markdown_report comparisons bf cf =
                  pre @ [CHR 0x0A] @ (''| '' @ name c @ '' | '' @ time_cell (baseline_time c) @ '' | N/A | '') @ rest @ post
              \<and> result_row c = (''| '' @ name c @ '' | '' @ time_cell (baseline_time c) @ '' | N/A | '') @ rest
              \<and> (post = [] \<or> (\<exists>p. post = [CHR 0x0A] @ p)))"
    if z: "current_time c = Some 0"
  proof -
    from z obtain rest where rest: "result_row c = (''| '' @ name c @ '' | '' @ time_cell (baseline_time c) @ '' | N/A | '') @ rest"
      by (simp add: result_row_def time_cell_def Let_def)
    have "result_row c \<in> set (tl (report_lines comparisons bf cf))"
      using assms by (rule result_row_in_tl)
    from report_has_line [OF this]
    obtain pre post where "generate_markdown_report comparisons bf cf =
        pre @ [CHR 0x0A] @ result_row c @ post"
      and "post = [] \<or> (\<exists>p. post = [CHR 0x0A] @ p)"
      by blast
    with rest show ?thesis
      by (intro exI [of _ pre] exI [of _ rest] exI [of _ post]) simp
  qed
  have regression_row_current_time: "(\<exists>pre rest post.
                generate_markdown_report comparisons bf cf =
                  pre @ [CHR 0x0A] @ (''| '' @ name c @ '' | '' @ time_cell (baseline_time c) @ '' | N/A | '') @ rest @ post
              \<and> regression_row c = (''| '' @ name c @ '' | '' @ time_cell (baseline_time c) @ '' | N/A | '') @ rest
              \<and> (post = [] \<or> (\<exists>p. post = [CHR 0x0A] @ p)))"
    if z: "current_time c = Some 0" and k: "change_type c = REGRESSION"
  proof -
    from z obtain rest where rest: "regression_row c = (''| '' @ name c @ '' | '' @ time_cell (baseline_time c) @ '' | N/A | '') @ rest"
      by (simp add: regression_row_def time_cell_def Let_def)
    have "regression_row c \<in> set (tl (report_lines comparisons bf cf))"
      using assms k by (rule regression_row_in_tl)
    from report_has_line [OF this]
    obtain pre post where "generate_markdown_report comparisons bf cf =
        pre @ [CHR 0x0A] @ regression_row c @ post"
      and "post = [] \<or> (\<exists>p. post = [CHR 0x0A] @ p)"
      by blast
    with rest show ?thesis
      by (intro exI [of _ pre] exI [of _ rest] exI [of _ post]) simp
  qed
  have improvement_row_current_time: "(\<exists>pre rest post.
                generate_markdown_report comparisons bf cf =
                  pre @ [CHR 0x0A] @ (''| '' @ name c @ '' | '' @ time_cell (baseline_time c) @ '' | N/A | '') @ rest @ post
              \<and> improvement_row c = (''| '' @ name c @ '' | '' @ time_cell (baseline_time c) @ '' | N/A | '') @ rest
              \<and> (post = [] \<or> (\<exists>p. post = [CHR 0x0A] @ p)))"
    if z: "current_time c = Some 0" and k: "change_type c = IMPROVEMENT"
  proof -
    from z obtain rest where rest: "improvement_row c = (''| '' @ name c @ '' | '' @ time_cell (baseline_time c) @ '' | N/A | '') @ rest"
      by (simp add: improvement_row_def time_cell_def Let_def)
    have "improvement_row c \<in> set (tl (report_lines comparisons bf cf))"
      using assms k by (rule improvement_row_in_tl)
    from report_has_line [OF this]
    obtain pre post where "generate_markdown_report comparisons bf cf =
        pre @ [CHR 0x0A] @ improvement_row c @ post"
      and "post = [] \<or> (\<exists>p. post = [CHR 0x0A] @ p)"
      by blast
    with rest show ?thesis
      by (intro exI [of _ pre] exI [of _ rest] exI [of _ post]) simp
  qed
  have res: "result_row c \<in> set (report_lines comparisons bf cf)"
    using assms by (rule result_row_in_report)
  have reg: "regression_row c \<in> set (report_lines comparisons bf cf)"
    if "change_type c = REGRESSION"
    using assms that by (rule regression_row_in_report)
  have imp: "improvement_row c \<in> set (report_lines comparisons bf cf)"
    if "change_type c = IMPROVEMENT"
    using assms that by (rule improvement_row_in_report)
  have b0: "generate_markdown_report comparisons bf cf =
      generate_markdown_report (xs @ c\<lparr>baseline_time := None\<rparr> # ys) bf cf"
    if "baseline_time c = Some 0" and "comparisons = xs @ c # ys" for xs ys
    using that by (simp add: report_baseline_zero)
  have c0: "generate_markdown_report comparisons bf cf =
      generate_markdown_report (xs @ c\<lparr>current_time := None\<rparr> # ys) bf cf"
    if "current_time c = Some 0" and "comparisons = xs @ c # ys" for xs ys
    using that by (simp add: report_current_zero)
  note facts = res reg imp b0 c0 result_row_baseline_time regression_row_baseline_time
    improvement_row_baseline_time result_row_current_time regression_row_current_time
    improvement_row_current_time
  show ?thesis
    by (intro conjI impI allI) ((rule facts; assumption)+)
qed


theorem generate_markdown_report_zero_time_witness:
  "generate_markdown_report
       [\<lparr>name = ''a'', baseline_time = Some 100, current_time = Some 0,
       change_percent = - 1, change_type = IMPROVEMENT, speedup = 0\<rparr>] ''b.json'' ''c.json'' =
       ''# Benchmark Comparison Report''
       @ [CHR 0x0A] @ []
       @ [CHR 0x0A] @ ''- **Baseline**: '' @ [CHR 0x60] @ ''b.json'' @ [CHR 0x60]
       @ [CHR 0x0A] @ ''- **Current**: '' @ [CHR 0x60] @ ''c.json'' @ [CHR 0x60]
       @ [CHR 0x0A] @ []
       @ [CHR 0x0A] @ ''## Summary''
       @ [CHR 0x0A] @ []
       @ [CHR 0x0A] @ ''- '' @ status_emoji IMPROVEMENT @ '' Improvements: 1''
       @ [CHR 0x0A] @ ''- '' @ status_emoji REGRESSION @ '' Regressions: 0''
       @ [CHR 0x0A] @ ''- '' @ status_emoji UNCHANGED @ '' Unchanged: 0''
       @ [CHR 0x0A] @ ''- '' @ status_emoji NEW @ '' New: 0''
       @ [CHR 0x0A] @ ''- '' @ status_emoji REMOVED @ '' Removed: 0''
       @ [CHR 0x0A] @ []
       @ [CHR 0x0A] @ ''## '' @ status_emoji IMPROVEMENT @ '' Improvements''
       @ [CHR 0x0A] @ []
       @ [CHR 0x0A] @ ''| Benchmark | Baseline | Current | Change | Speedup |''
       @ [CHR 0x0A] @ ''|-----------|----------|---------|--------|---------|''
       @ [CHR 0x0A] @ ''| a | 100.00 ns | N/A | -100.0% | 0.00x |''
       @ [CHR 0x0A] @ []
       @ [CHR 0x0A] @ ''## All Results''
       @ [CHR 0x0A] @ []
       @ [CHR 0x0A] @ ''| Benchmark | Baseline | Current | Change | Status |''
       @ [CHR 0x0A] @ ''|-----------|----------|---------|--------|--------|''
       @ [CHR 0x0A] @ ''| a | 100.00 ns | N/A | -100.0% | '' @ status_emoji IMPROVEMENT @ '' |''
   \<and> generate_markdown_report
       [\<lparr>name = ''a'', baseline_time = Some 100, current_time = Some 0,
       change_percent = - 1, change_type = IMPROVEMENT, speedup = 0\<rparr>] ''b.json'' ''c.json'' =
     generate_markdown_report
       [\<lparr>name = ''a'', baseline_time = Some 100, current_time = None,
          change_percent = - 1, change_type = IMPROVEMENT, speedup = 0\<rparr>] ''b.json'' ''c.json''
   \<and> (\<exists>pre post. generate_markdown_report
       [\<lparr>name = ''a'', baseline_time = Some 100, current_time = Some 0,
       change_percent = - 1, change_type = IMPROVEMENT, speedup = 0\<rparr>] ''b.json'' ''c.json'' =
       pre @ [CHR 0x0A] @ ''| a | 100.00 ns | N/A | '' @ post)"
proof -
  let ?c = "\<lparr>name = ''a'', baseline_time = Some 100, current_time = Some 0,
       change_percent = - 1, change_type = IMPROVEMENT, speedup = 0\<rparr>"
  have mem: "?c \<in> set [?c]" by simp
  have zero: "current_time ?c = Some 0" by simp
  note t = generate_markdown_report_zero_time [OF mem, of "''b.json''" "''c.json''",
      THEN conjunct2, rule_format, OF zero]
  have split: "[?c] = [] @ ?c # []" by simp
  from t have "\<forall>xs ys. [?c] = xs @ ?c # ys \<longrightarrow>
      generate_markdown_report [?c] ''b.json'' ''c.json'' =
      generate_markdown_report (xs @ ?c\<lparr>current_time := None\<rparr> # ys) ''b.json'' ''c.json''"
    by (intro allI impI) blast
  from this [rule_format, OF split]
  have same: "generate_markdown_report [?c] ''b.json'' ''c.json'' =
      generate_markdown_report [?c\<lparr>current_time := None\<rparr>] ''b.json'' ''c.json''"
    by simp
  have cell: "time_cell (Some 100) = ''100.00 ns''"
    by (simp add: time_cell_def format_time_def fmt_fixed_def round_half_even_def str_nat.simps)
  from t have "\<exists>pre rest post. generate_markdown_report [?c] ''b.json'' ''c.json'' =
      pre @ [CHR 0x0A] @ (''| '' @ name ?c @ '' | '' @ time_cell (baseline_time ?c) @ '' | N/A | '')
        @ rest @ post"
    by blast
  then obtain pre rest post where "generate_markdown_report [?c] ''b.json'' ''c.json'' =
      pre @ [CHR 0x0A] @ (''| '' @ name ?c @ '' | '' @ time_cell (baseline_time ?c) @ '' | N/A | '')
        @ rest @ post"
    by blast
  then have "generate_markdown_report [?c] ''b.json'' ''c.json'' =
      pre @ [CHR 0x0A] @ ''| a | 100.00 ns | N/A | '' @ (rest @ post)"
    by (simp add: cell)
  then have line: "\<exists>pre post. generate_markdown_report [?c] ''b.json'' ''c.json'' =
      pre @ [CHR 0x0A] @ ''| a | 100.00 ns | N/A | '' @ post"
    by blast
  have whole: "generate_markdown_report [?c] ''b.json'' ''c.json'' =
       ''# Benchmark Comparison Report''
       @ [CHR 0x0A] @ []
       @ [CHR 0x0A] @ ''- **Baseline**: '' @ [CHR 0x60] @ ''b.json'' @ [CHR 0x60]
       @ [CHR 0x0A] @ ''- **Current**: '' @ [CHR 0x60] @ ''c.json'' @ [CHR 0x60]
       @ [CHR 0x0A] @ []
       @ [CHR 0x0A] @ ''## Summary''
       @ [CHR 0x0A] @ []
       @ [CHR 0x0A] @ ''- '' @ status_emoji IMPROVEMENT @ '' Improvements: 1''
       @ [CHR 0x0A] @ ''- '' @ status_emoji REGRESSION @ '' Regressions: 0''
       @ [CHR 0x0A] @ ''- '' @ status_emoji UNCHANGED @ '' Unchanged: 0''
       @ [CHR 0x0A] @ ''- '' @ status_emoji NEW @ '' New: 0''
       @ [CHR 0x0A] @ ''- '' @ status_emoji REMOVED @ '' Removed: 0''
       @ [CHR 0x0A] @ []
       @ [CHR 0x0A] @ ''## '' @ status_emoji IMPROVEMENT @ '' Improvements''
       @ [CHR 0x0A] @ []
       @ [CHR 0x0A] @ ''| Benchmark | Baseline | Current | Change | Speedup |''
       @ [CHR 0x0A] @ ''|-----------|----------|---------|--------|---------|''
       @ [CHR 0x0A] @ ''| a | 100.00 ns | N/A | -100.0% | 0.00x |''
       @ [CHR 0x0A] @ []
       @ [CHR 0x0A] @ ''## All Results''
       @ [CHR 0x0A] @ []
       @ [CHR 0x0A] @ ''| Benchmark | Baseline | Current | Change | Status |''
       @ [CHR 0x0A] @ ''|-----------|----------|---------|--------|--------|''
       @ [CHR 0x0A] @ ''| a | 100.00 ns | N/A | -100.0% | '' @ status_emoji IMPROVEMENT @ '' |''"
    by (simp add: generate_markdown_report_def report_lines_def result_row_def
        improvement_row_def time_cell_def format_time_def fmt_fixed_def
        round_half_even_def str_nat.simps)
  from whole same line show ?thesis by (intro conjI) simp_all
qed

end
